theory Spec2Isabelle
  imports Complex_Main "HOL-Library.Word" "HOL-Library.Multiset"
begin

unbundle bit_operations_syntax

section \<open>The pruned block dispatcher (chain/pruned_block_dispatcher.go)\<close>

text \<open>
  A shallow embedding of the dispatcher: the peer filter, the constructor, the request
  registry (\<open>newRequest\<close>), the response validator (\<open>handleResp\<close>, \<open>banPeer\<close>) and the
  peer pool (\<open>pollPeers\<close>, \<open>connectToPeers\<close>). Go strings are byte strings, as HOL's
  \<open>string\<close> is; Go's \<open>int\<close> is \<open>int\<close> (the code compares lengths with the two
  configured bounds and subtracts a length from the target, which cannot overflow); a
  Go map is a HOL map, \<open>len\<close> of it the cardinality of its domain.
\<close>

subsection \<open>Errors\<close>

type_synonym byte = "8 word"

text \<open>
  The errors the code returns, and the one way it can panic: the slice read of
  \<open>binary.BigEndian.Uint64\<close> on fewer than eight bytes.
\<close>

datatype error =
    InvalidByteError char
  | ErrLength
  | ConfigNumTargetPeer
  | ConfigMaxRequestInvs
  | MessageError
  | GetPeersError
  | NewPeerError
  | ShuttingDown
  | InvalidBlock

datatype failure = Returned error | Panic

subsection \<open>Service flags and the peer filter\<close>

type_synonym ServiceFlag = "64 word"

text \<open>
  Modelled from the spec: the service bits of the wire protocol library, which is not
  part of this repository. NODE_NETWORK is bit 0 and NODE_WITNESS bit 3 (scenario S1 of
  the spec: 0x0001 is NETWORK only, 0x0409 has NETWORK and WITNESS).
\<close>

definition SFNodeNetwork :: ServiceFlag where
  "SFNodeNetwork = push_bit 0 1"

definition SFNodeWitness :: ServiceFlag where
  "SFNodeWitness = push_bit 3 1"

definition requiredServices :: ServiceFlag where
  "requiredServices = SFNodeNetwork OR SFNodeWitness"

definition prunedNodeService :: ServiceFlag where
  "prunedNodeService = push_bit 11 1"

text \<open>
  \<open>btcjson.GetPeerInfoResult\<close>: the address and the hex-encoded service flags are the
  fields the dispatcher reads.
\<close>

record GetPeerInfoResult =
  Addr :: string
  Services :: string

text \<open>
  Modelled from the spec: \<open>hex.DecodeString\<close> of Go's standard library (the flags are
  "hex-encoded"), which is not part of this repository. Digits of both cases are
  accepted; the first character that is no hex digit is reported, and a string of odd
  length whose characters are all digits is \<open>ErrLength\<close>.
\<close>

definition fromHexChar :: "char \<Rightarrow> byte option" where
  "fromHexChar c =
     (let n = (of_char c :: nat) in
      if 48 \<le> n \<and> n \<le> 57 then Some (of_nat (n - 48))
      else if 97 \<le> n \<and> n \<le> 102 then Some (of_nat (n - 97 + 10))
      else if 65 \<le> n \<and> n \<le> 70 then Some (of_nat (n - 65 + 10))
      else None)"

fun DecodeString :: "string \<Rightarrow> error + byte list" where
  "DecodeString [] = Inr []"
| "DecodeString [p] =
     (case fromHexChar p of
        None \<Rightarrow> Inl (InvalidByteError p)
      | Some a \<Rightarrow> Inl ErrLength)"
| "DecodeString (p # q # rest) =
     (case fromHexChar p of
        None \<Rightarrow> Inl (InvalidByteError p)
      | Some a \<Rightarrow>
          (case fromHexChar q of
             None \<Rightarrow> Inl (InvalidByteError q)
           | Some b \<Rightarrow>
               (case DecodeString rest of
                  Inl e \<Rightarrow> Inl e
                | Inr bs \<Rightarrow> Inr ((push_bit 4 a OR b) # bs))))"

text \<open>
  Modelled from the spec: \<open>binary.BigEndian.Uint64\<close> of Go's standard library ("64-bit
  big-endian"), which is not part of this repository. It reads the first eight bytes of
  the slice and panics, by the bounds check on index 7, when there are fewer.
\<close>

fun be_uint :: "ServiceFlag \<Rightarrow> byte list \<Rightarrow> ServiceFlag" where
  "be_uint acc [] = acc"
| "be_uint acc (b # bs) = be_uint (push_bit 8 acc OR ucast b) bs"

definition Uint64 :: "byte list \<Rightarrow> failure + ServiceFlag" where
  "Uint64 b = (if length b < 8 then Inl Panic else Inr (be_uint 0 (take 8 b)))"

text \<open>
  The body of the loop of \<open>filterPeers\<close> for one descriptor: an error of the decoder is
  returned, the read may panic, and otherwise the descriptor is kept or skipped.
\<close>

definition peerServices :: "GetPeerInfoResult \<Rightarrow> failure + ServiceFlag" where
  "peerServices peer =
     (case DecodeString (Services peer) of
        Inl err \<Rightarrow> Inl (Returned err)
      | Inr rawServices \<Rightarrow> Uint64 rawServices)"

fun filterPeers_loop ::
  "GetPeerInfoResult list \<Rightarrow> GetPeerInfoResult list \<Rightarrow> failure + GetPeerInfoResult list"
where
  "filterPeers_loop eligible [] = Inr eligible"
| "filterPeers_loop eligible (peer # peers) =
     (case peerServices peer of
        Inl f \<Rightarrow> Inl f
      | Inr services \<Rightarrow>
          if services AND requiredServices \<noteq> requiredServices
          then filterPeers_loop eligible peers
          else if services AND prunedNodeService = prunedNodeService
          then filterPeers_loop eligible peers
          else filterPeers_loop (eligible @ [peer]) peers)"

definition filterPeers :: "GetPeerInfoResult list \<Rightarrow> failure + GetPeerInfoResult list" where
  "filterPeers peers = filterPeers_loop [] peers"

subsection \<open>Configuration and the dispatcher's state\<close>

text \<open>
  Of \<open>PrunedBlockDispatcherConfig\<close> the two numeric options are state; the injected
  \<open>Dial\<close>, \<open>GetPeers\<close> and ticker are the environment, and their results are the
  parameters of the steps of the peer pool below.
\<close>

record PrunedBlockDispatcherConfig =
  NumTargetPeers :: int
  MaxRequestInvs :: int

text \<open>
  Modelled from the spec: \<open>wire.MaxInvPerMsg\<close>, "the protocol's MaxInvPerMsg limit",
  a constant of the wire protocol library, which is not part of this repository.
\<close>

definition MaxInvPerMsg :: int where
  "MaxInvPerMsg = 50000"

type_synonym hash = "256 word"

text \<open>A delivery channel is named by its index in the heap of channels.\<close>

type_synonym chan = nat

datatype InvType = InvTypeError | InvTypeTx | InvTypeBlock | InvTypeFilteredBlock

record InvVect =
  Type :: InvType
  Hash :: hash

definition NewInvVect :: "InvType \<Rightarrow> hash \<Rightarrow> InvVect" where
  "NewInvVect typ h = \<lparr>Type = typ, Hash = h\<rparr>"

text \<open>
  \<open>wire.Message\<close>: the two message types the handler tells apart, the handshake
  messages, and any other.
\<close>

datatype 'blk Message =
    is_MsgBlock: MsgBlock 'blk
  | is_MsgGetData: MsgGetData (InvList: "InvVect list")
  | MsgVersion
  | MsgVerAck
  | MsgOther

text \<open>
  \<open>query.Request\<close>: the message to send; its \<open>HandleResp\<close> is always the dispatcher's
  \<open>handleResp\<close>.
\<close>

record 'blk Request =
  Req :: "'blk Message"

record Progress =
  Progressed :: bool
  Finished :: bool

text \<open>
  A peer handle (\<open>peer.Peer\<close>): its address, and whether \<open>Disconnect\<close> has been called on
  it.
\<close>

record Peer =
  addr :: string
  disconnect :: bool

definition Disconnect :: "Peer \<Rightarrow> Peer" where
  "Disconnect p = p\<lparr>disconnect := True\<rparr>"

text \<open>
  A buffered Go channel of blocks: \<open>make(chan *wire.MsgBlock, n)\<close> has capacity \<open>n\<close>, an
  empty buffer and is open. A send on a closed channel panics, a send on a full buffer
  blocks, and any other send appends to the buffer.
\<close>

record 'blk chan_state =
  ch_cap :: nat
  ch_buf :: "'blk list"
  ch_closed :: bool

definition make_chan :: "nat \<Rightarrow> 'blk chan_state" where
  "make_chan n = \<lparr>ch_cap = n, ch_buf = [], ch_closed = False\<rparr>"

datatype 'blk send_result = Sent "'blk chan_state" | WouldBlock | SendPanic

definition chan_send :: "'blk \<Rightarrow> 'blk chan_state \<Rightarrow> 'blk send_result" where
  "chan_send v ch =
     (if ch_closed ch then SendPanic
      else if length (ch_buf ch) < ch_cap ch then Sent (ch\<lparr>ch_buf := ch_buf ch @ [v]\<rparr>)
      else WouldBlock)"

text \<open>Where the \<open>pollPeers\<close> goroutine stands.\<close>

datatype poll_pc =
    NotStarted
  | Idle
  | Iterating "GetPeerInfoResult list"
  | Connecting GetPeerInfoResult "GetPeerInfoResult list"
  | Exited
  | Crashed

datatype io_event = CallGetPeers | CallDial string

text \<open>
  The fields of \<open>PrunedBlockDispatcher\<close> that the code reads and writes (\<open>quit\<close> is the
  quit channel: \<open>True\<close> once it is closed), followed by the parts of the running
  program they refer to: the heap of delivery channels made by \<open>newRequest\<close>, the
  fan-out goroutines spawned by \<open>handleResp\<close> (the block and the channels each has still
  to send it to), the position of the \<open>pollPeers\<close> goroutine, and the calls made so far
  to the injected \<open>GetPeers\<close> and \<open>Dial\<close>.
\<close>

record 'blk PrunedBlockDispatcher =
  cfg :: PrunedBlockDispatcherConfig
  blocksQueried :: "hash \<rightharpoonup> chan list"
  currentPeers :: "string \<rightharpoonup> Peer"
  bannedPeers :: "string set"
  quit :: bool
  chans :: "'blk chan_state list"
  fanouts :: "('blk \<times> chan list) list"
  poll :: poll_pc
  io :: "io_event list"

definition NewPrunedBlockDispatcher ::
  "PrunedBlockDispatcherConfig \<Rightarrow> error + 'blk PrunedBlockDispatcher"
where
  "NewPrunedBlockDispatcher c =
     (if NumTargetPeers c < 1 then Inl ConfigNumTargetPeer
      else if MaxRequestInvs c > MaxInvPerMsg then Inl ConfigMaxRequestInvs
      else Inr \<lparr>cfg = c, blocksQueried = Map.empty, currentPeers = Map.empty,
                bannedPeers = {}, quit = False, chans = [], fanouts = [],
                poll = NotStarted, io = []\<rparr>)"

subsection \<open>The request registry: newRequest\<close>

text \<open>
  Modelled from the spec: \<open>MsgGetData.AddInvVect\<close> of the wire protocol library, which is
  not part of this repository: it refuses the entry that would take the message past
  \<open>MaxInvPerMsg\<close>.
\<close>

definition AddInvVect :: "InvVect list \<Rightarrow> InvVect \<Rightarrow> error + InvVect list" where
  "AddInvVect invList iv =
     (if int (length invList) + 1 > MaxInvPerMsg then Inl MessageError
      else Inr (invList @ [iv]))"

text \<open>
  The loop of \<open>newRequest\<close> over \<open>blocks\<close>, from index \<open>i\<close> on: \<open>n\<close> is \<open>len(blocks)\<close>,
  \<open>getData\<close> is \<open>None\<close> for the nil pointer. The map is returned as the loop left it,
  also when the loop returns an error.
\<close>

fun newRequest_loop ::
  "int \<Rightarrow> chan \<Rightarrow> nat \<Rightarrow> nat \<Rightarrow> hash list \<Rightarrow> (hash \<rightharpoonup> chan list) \<Rightarrow>
   'blk Request list \<Rightarrow> InvVect list option \<Rightarrow>
   (hash \<rightharpoonup> chan list) \<times> (error + 'blk Request list)"
where
  "newRequest_loop maxInvs blockChan n i [] queried reqs getData = (queried, Inr reqs)"
| "newRequest_loop maxInvs blockChan n i (block # blocks) queried reqs getData =
     (let invList = (case getData of None \<Rightarrow> [] | Some l \<Rightarrow> l);
          added = (case queried block of
                     None \<Rightarrow> AddInvVect invList (NewInvVect InvTypeBlock block)
                   | Some cs \<Rightarrow> Inr invList)
      in case added of
           Inl err \<Rightarrow> (queried, Inl err)
         | Inr invList' \<Rightarrow>
             (let queried' =
                    queried(block \<mapsto> (case queried block of None \<Rightarrow> [] | Some cs \<Rightarrow> cs) @ [blockChan])
              in if (int (length invList') > 0 \<and> int i = int n - 1)
                    \<or> int (length invList') = maxInvs
                 then newRequest_loop maxInvs blockChan n (i + 1) blocks queried'
                        (reqs @ [\<lparr>Req = MsgGetData invList'\<rparr>]) None
                 else newRequest_loop maxInvs blockChan n (i + 1) blocks queried'
                        reqs (Some invList')))"

definition newRequest ::
  "hash list \<Rightarrow> 'blk PrunedBlockDispatcher \<Rightarrow>
   'blk PrunedBlockDispatcher \<times> (error + 'blk Request list \<times> chan)"
where
  "newRequest blocks d =
     (let blockChan = length (chans d);
          d1 = d\<lparr>chans := chans d @ [make_chan (length blocks)]\<rparr>
      in case newRequest_loop (MaxRequestInvs (cfg d1)) blockChan (length blocks) 0 blocks
                (blocksQueried d1) [] None of
           (queried, Inl err) \<Rightarrow> (d1\<lparr>blocksQueried := queried\<rparr>, Inl err)
         | (queried, Inr reqs) \<Rightarrow> (d1\<lparr>blocksQueried := queried\<rparr>, Inr (reqs, blockChan)))"

text \<open>
  \<open>Query\<close>: the requests go to the work manager when there are any; an error of
  \<open>newRequest\<close> is sent on a fresh error channel and no block channel is returned.
\<close>

datatype 'blk query_result = QueryFailed error | QuerySubmitted chan "'blk Request list"

definition Query ::
  "hash list \<Rightarrow> 'blk PrunedBlockDispatcher \<Rightarrow> 'blk PrunedBlockDispatcher \<times> 'blk query_result"
where
  "Query blocks d =
     (case newRequest blocks d of
        (d', Inl err) \<Rightarrow> (d', QueryFailed err)
      | (d', Inr (reqs, blockChan)) \<Rightarrow> (d', QuerySubmitted blockChan reqs))"

subsection \<open>The response validator: banPeer and handleResp\<close>

text \<open>
  \<open>banPeer\<close> records the address and calls \<open>Disconnect\<close> on the handle when there is one.
  It deletes nothing from \<open>currentPeers\<close>: the entry is deleted by the closure
  that \<open>connectToPeer\<close> hands to \<open>signalUponDisconnect\<close>, which a goroutine of the peer
  runs once the peer has disconnected.
\<close>

definition banPeer :: "string \<Rightarrow> 'blk PrunedBlockDispatcher \<Rightarrow> 'blk PrunedBlockDispatcher" where
  "banPeer peer d =
     (let d1 = d\<lparr>bannedPeers := insert peer (bannedPeers d)\<rparr>
      in case currentPeers d1 peer of
           Some p \<Rightarrow> d1\<lparr>currentPeers := (currentPeers d1)(peer \<mapsto> Disconnect p)\<rparr>
         | None \<Rightarrow> d1)"

definition onDisconnect :: "string \<Rightarrow> 'blk PrunedBlockDispatcher \<Rightarrow> 'blk PrunedBlockDispatcher" where
  "onDisconnect a d = d\<lparr>currentPeers := (currentPeers d)(a := None)\<rparr>"

text \<open>
  The wire and blockchain libraries are not part of this repository: the hash of a
  block and the outcome of \<open>blockchain.CheckBlockSanity\<close> (with the dispatcher's chain
  parameters and time source, at the time of the call) are parameters.
\<close>

record 'blk externals =
  BlockHash :: "'blk \<Rightarrow> hash"
  CheckBlockSanity :: "'blk \<Rightarrow> error option"

text \<open>
  The loop that computes \<open>Finished\<close>: false at the first entry of the request whose hash
  is still queried.
\<close>

fun finished_loop :: "(hash \<rightharpoonup> chan list) \<Rightarrow> InvVect list \<Rightarrow> bool" where
  "finished_loop queried [] = True"
| "finished_loop queried (iv # invs) =
     (case queried (Hash iv) of
        Some cs \<Rightarrow> False
      | None \<Rightarrow> finished_loop queried invs)"

definition handleResp ::
  "'blk externals \<Rightarrow> 'blk Message \<Rightarrow> 'blk Message \<Rightarrow> string \<Rightarrow>
   'blk PrunedBlockDispatcher \<Rightarrow> Progress \<times> 'blk PrunedBlockDispatcher"
where
  "handleResp X req resp peer d =
     (case resp of
        MsgBlock block \<Rightarrow>
          (case req of
             MsgGetData invList \<Rightarrow>
               (let blockHash = BlockHash X block
                in case blocksQueried d blockHash of
                     None \<Rightarrow> (\<lparr>Progressed = False, Finished = False\<rparr>, d)
                   | Some blockChans \<Rightarrow>
                       (case CheckBlockSanity X block of
                          Some err \<Rightarrow>
                            (\<lparr>Progressed = False, Finished = False\<rparr>, banPeer peer d)
                        | None \<Rightarrow>
                            (let d1 = d\<lparr>blocksQueried := (blocksQueried d)(blockHash := None)\<rparr>;
                                 progress = \<lparr>Progressed = True,
                                             Finished = finished_loop (blocksQueried d1) invList\<rparr>
                             in (progress, d1\<lparr>fanouts := fanouts d1 @ [(block, blockChans)]\<rparr>))))
           | _ \<Rightarrow> (\<lparr>Progressed = False, Finished = False\<rparr>, d))
      | _ \<Rightarrow> (\<lparr>Progressed = False, Finished = False\<rparr>, d))"

text \<open>
  The fan-out goroutine goes through the captured channels in turn; for each it waits
  in a \<open>select\<close> for the send to the channel or for the quit channel. \<open>fanout_send\<close> is
  the send of the \<open>k\<close>-th goroutine to the next of its channels (a goroutine with nothing
  left to send ends), and \<open>fanout_quit\<close> its return when the quit channel is closed; the
  step relation below allows the latter only then.
\<close>

definition fanout_send ::
  "nat \<Rightarrow> 'blk PrunedBlockDispatcher \<Rightarrow> 'blk PrunedBlockDispatcher option"
where
  "fanout_send k d =
     (if k < length (fanouts d)
      then (case fanouts d ! k of
              (block, []) \<Rightarrow> Some (d\<lparr>fanouts := take k (fanouts d) @ drop (Suc k) (fanouts d)\<rparr>)
            | (block, blockChan # rest) \<Rightarrow>
                (if blockChan < length (chans d)
                 then (case chan_send block (chans d ! blockChan) of
                         Sent ch \<Rightarrow>
                           Some (d\<lparr>chans := (chans d)[blockChan := ch],
                                   fanouts := (fanouts d)[k := (block, rest)]\<rparr>)
                       | WouldBlock \<Rightarrow> None
                       | SendPanic \<Rightarrow> None)
                 else None))
      else None)"

definition fanout_quit :: "nat \<Rightarrow> 'blk PrunedBlockDispatcher \<Rightarrow> 'blk PrunedBlockDispatcher" where
  "fanout_quit k d = d\<lparr>fanouts := take k (fanouts d) @ drop (Suc k) (fanouts d)\<rparr>"

text \<open>A caller receives the oldest block buffered in its channel.\<close>

definition chan_recv :: "chan \<Rightarrow> 'blk PrunedBlockDispatcher \<Rightarrow> 'blk PrunedBlockDispatcher" where
  "chan_recv c d =
     d\<lparr>chans := (chans d)[c := (chans d ! c)\<lparr>ch_buf := tl (ch_buf (chans d ! c))\<rparr>]\<rparr>"

text \<open>\<open>Stop\<close> closes the quit channel.\<close>

definition Stop :: "'blk PrunedBlockDispatcher \<Rightarrow> 'blk PrunedBlockDispatcher" where
  "Stop d = d\<lparr>quit := True\<rparr>"

subsection \<open>The peer pool: pollPeers and connectToPeers\<close>

text \<open>
  The head of \<open>connectToPeers\<close>: the result of \<open>GetPeers\<close> is filtered and shuffled.
  An error of either is returned to \<open>pollPeers\<close>, which logs it and waits for the next
  tick; a panic ends the program.
\<close>

definition connectToPeers_begin ::
  "error + GetPeerInfoResult list \<Rightarrow> (GetPeerInfoResult list \<Rightarrow> GetPeerInfoResult list) \<Rightarrow>
   'blk PrunedBlockDispatcher \<Rightarrow> 'blk PrunedBlockDispatcher"
where
  "connectToPeers_begin getPeers shuffle d =
     (let d1 = d\<lparr>io := io d @ [CallGetPeers]\<rparr>
      in case getPeers of
           Inl err \<Rightarrow> d1\<lparr>poll := Idle\<rparr>
         | Inr peers \<Rightarrow>
             (case filterPeers peers of
                Inl (Returned err) \<Rightarrow> d1\<lparr>poll := Idle\<rparr>
              | Inl Panic \<Rightarrow> d1\<lparr>poll := Crashed\<rparr>
              | Inr eligible \<Rightarrow> d1\<lparr>poll := Iterating (shuffle eligible)\<rparr>))"

text \<open>
  A tick of the refresh ticker: a pass starts only when peers are needed.
\<close>

definition pollPeers_tick ::
  "error + GetPeerInfoResult list \<Rightarrow> (GetPeerInfoResult list \<Rightarrow> GetPeerInfoResult list) \<Rightarrow>
   'blk PrunedBlockDispatcher \<Rightarrow> 'blk PrunedBlockDispatcher"
where
  "pollPeers_tick getPeers shuffle d =
     (let peersNeeded = NumTargetPeers (cfg d) - int (card (dom (currentPeers d)))
      in if peersNeeded \<le> 0 then d else connectToPeers_begin getPeers shuffle d)"

text \<open>
  An iteration of the loop of \<open>connectToPeers\<close> has two critical sections. The first
  reads whether the candidate is banned or connected.
\<close>

definition connect_check ::
  "GetPeerInfoResult \<Rightarrow> GetPeerInfoResult list \<Rightarrow>
   'blk PrunedBlockDispatcher \<Rightarrow> 'blk PrunedBlockDispatcher"
where
  "connect_check peer rest d =
     (let isBanned = (Addr peer \<in> bannedPeers d);
          isConnected = (currentPeers d (Addr peer) \<noteq> None)
      in if isBanned \<or> isConnected then d\<lparr>poll := Iterating rest\<rparr>
         else d\<lparr>poll := Connecting peer rest\<rparr>)"

text \<open>
  Between the two, the peer is made, dialled and published to the work manager. What
  the environment does there decides how the iteration goes on: \<open>newQueryPeer\<close> fails
  (the pass returns), the dial or the handshake fails or the quit channel wins the
  wait for readiness (the loop continues), the quit channel wins the send to the work
  manager (the pass returns), or the peer is connected and the second critical section
  stores it and compares the count with the target.
\<close>

datatype connect_outcome =
    NewQueryPeerFailed
  | DialFailed
  | ReadyTimeout
  | QuitWhileConnecting
  | QuitWhilePublishing
  | Connected

definition connect_attempt ::
  "connect_outcome \<Rightarrow> GetPeerInfoResult \<Rightarrow> GetPeerInfoResult list \<Rightarrow>
   'blk PrunedBlockDispatcher \<Rightarrow> 'blk PrunedBlockDispatcher"
where
  "connect_attempt outcome peer rest d =
     (let dialled = d\<lparr>io := io d @ [CallDial (Addr peer)]\<rparr>
      in case outcome of
           NewQueryPeerFailed \<Rightarrow> d\<lparr>poll := Idle\<rparr>
         | DialFailed \<Rightarrow> dialled\<lparr>poll := Iterating rest\<rparr>
         | ReadyTimeout \<Rightarrow> dialled\<lparr>poll := Iterating rest\<rparr>
         | QuitWhileConnecting \<Rightarrow> dialled\<lparr>poll := Iterating rest\<rparr>
         | QuitWhilePublishing \<Rightarrow> dialled\<lparr>poll := Idle\<rparr>
         | Connected \<Rightarrow>
             (let d1 = dialled\<lparr>currentPeers :=
                         (currentPeers dialled)(Addr peer \<mapsto> \<lparr>addr = Addr peer, disconnect = False\<rparr>)\<rparr>;
                  numPeers = int (card (dom (currentPeers d1)))
              in if numPeers = NumTargetPeers (cfg d1) then d1\<lparr>poll := Idle\<rparr>
                 else d1\<lparr>poll := Iterating rest\<rparr>))"

subsection \<open>The running dispatcher\<close>

text \<open>
  What can happen to a dispatcher: the steps of the \<open>pollPeers\<close> goroutine between its
  critical sections, a peer's disconnect closure, a call of \<open>Query\<close>, a call of
  \<open>handleResp\<close> by the work manager, a send or an early return of a fan-out goroutine,
  a receive by a caller, and \<open>Stop\<close>. \<open>Start\<close> is called once, so there is one
  \<open>pollPeers\<close> goroutine. When a peer disconnects is up to the network: the closure may
  run for any address at any time. The work manager may call \<open>handleResp\<close> with any
  request, response and peer. A caller holds the receiving end of its channel only
  (\<open>Query\<close> returns it receive-only), so all it can do to the channel is receive.
\<close>

datatype 'blk action =
    ActStart "error + GetPeerInfoResult list"
  | ActTick "error + GetPeerInfoResult list"
  | ActPollQuit
  | ActIterCheck
  | ActPassEnd
  | ActConnect connect_outcome
  | ActPeerDisconnected string
  | ActQuery "hash list"
  | ActHandleResp "'blk Message" "'blk Message" string
  | ActFanoutSend nat
  | ActFanoutQuit nat
  | ActRecv chan
  | ActStop

inductive step ::
  "'blk externals \<Rightarrow> 'blk action \<Rightarrow> 'blk PrunedBlockDispatcher \<Rightarrow>
   'blk PrunedBlockDispatcher \<Rightarrow> bool"
  for X :: "'blk externals"
where
  start:
    "poll d = NotStarted \<Longrightarrow> (\<And>xs. mset (shuffle xs) = mset xs) \<Longrightarrow>
     step X (ActStart getPeers) d (connectToPeers_begin getPeers shuffle d)"
| tick:
    "poll d = Idle \<Longrightarrow> (\<And>xs. mset (shuffle xs) = mset xs) \<Longrightarrow>
     step X (ActTick getPeers) d (pollPeers_tick getPeers shuffle d)"
| poll_quit:
    "poll d = Idle \<Longrightarrow> quit d \<Longrightarrow> step X ActPollQuit d (d\<lparr>poll := Exited\<rparr>)"
| iter_check:
    "poll d = Iterating (peer # rest) \<Longrightarrow> step X ActIterCheck d (connect_check peer rest d)"
| pass_end:
    "poll d = Iterating [] \<Longrightarrow> step X ActPassEnd d (d\<lparr>poll := Idle\<rparr>)"
| connect:
    "poll d = Connecting peer rest \<Longrightarrow>
     (outcome \<in> {QuitWhileConnecting, QuitWhilePublishing} \<Longrightarrow> quit d) \<Longrightarrow>
     step X (ActConnect outcome) d (connect_attempt outcome peer rest d)"
| peer_disconnected:
    "step X (ActPeerDisconnected a) d (onDisconnect a d)"
| query:
    "step X (ActQuery blocks) d (fst (Query blocks d))"
| handle_resp:
    "step X (ActHandleResp req resp peer) d (snd (handleResp X req resp peer d))"
| fanout_send:
    "fanout_send k d = Some d' \<Longrightarrow> step X (ActFanoutSend k) d d'"
| fanout_quit:
    "quit d \<Longrightarrow> k < length (fanouts d) \<Longrightarrow> step X (ActFanoutQuit k) d (fanout_quit k d)"
| recv:
    "c < length (chans d) \<Longrightarrow> ch_buf (chans d ! c) \<noteq> [] \<Longrightarrow>
     step X (ActRecv c) d (chan_recv c d)"
| stop:
    "\<not> quit d \<Longrightarrow> step X ActStop d (Stop d)"

text \<open>The states a dispatcher made by \<open>NewPrunedBlockDispatcher\<close> can be in.\<close>

inductive reachable :: "'blk externals \<Rightarrow> 'blk PrunedBlockDispatcher \<Rightarrow> bool"
  for X :: "'blk externals"
where
  init: "NewPrunedBlockDispatcher c = Inr d \<Longrightarrow> reachable X d"
| next_state: "reachable X d \<Longrightarrow> step X a d d' \<Longrightarrow> reachable X d'"

subsection \<open>Vocabulary of the claims\<close>

text \<open>
  The hashes of a request that were not queried when their turn came, in the order of
  the request: \<open>P\<close> is the set of queried hashes before the first of them. Every hash
  of the request is queried once its turn has passed.
\<close>

fun not_yet_queried :: "hash set \<Rightarrow> hash list \<Rightarrow> hash list" where
  "not_yet_queried P [] = []"
| "not_yet_queried P (b # bs) =
     (if b \<in> P then not_yet_queried P bs else b # not_yet_queried (insert b P) bs)"

text \<open>The inventory list of an emitted request.\<close>

definition invs_of :: "'blk Request \<Rightarrow> InvVect list" where
  "invs_of r = InvList (Req r)"

text \<open>
  \<open>new\<close> splits the inventory entries \<open>invs\<close> into batches of at most \<open>M\<close>, none empty,
  and as few as \<open>M\<close> allows.
\<close>

definition batched :: "int \<Rightarrow> InvVect list \<Rightarrow> 'blk Request list \<Rightarrow> bool" where
  "batched M invs new \<longleftrightarrow>
     concat (map invs_of new) = invs
     \<and> (\<forall>r\<in>set new. invs_of r \<noteq> [] \<and> int (length (invs_of r)) \<le> M)
     \<and> int (length new) = (int (length invs) + M - 1) div M"

text \<open>The \<open>pollPeers\<close> goroutine is inside the loop of \<open>connectToPeers\<close>.\<close>

fun in_pass :: "poll_pc \<Rightarrow> bool" where
  "in_pass (Iterating cands) = True"
| "in_pass (Connecting peer rest) = True"
| "in_pass pc = False"

text \<open>
  The invariant of the peer pool: the connected peers are finitely many and no more
  than the target, which is at least 1; there are none before \<open>Start\<close>; and while a
  connection pass runs there are fewer than the target.
\<close>

definition pool_inv :: "'blk PrunedBlockDispatcher \<Rightarrow> bool" where
  "pool_inv d \<longleftrightarrow>
     finite (dom (currentPeers d))
     \<and> 1 \<le> NumTargetPeers (cfg d)
     \<and> int (card (dom (currentPeers d))) \<le> NumTargetPeers (cfg d)
     \<and> (poll d = NotStarted \<longrightarrow> currentPeers d = Map.empty)
     \<and> (in_pass (poll d) \<longrightarrow> int (card (dom (currentPeers d))) < NumTargetPeers (cfg d))"






subsection \<open>Example values\<close>

text \<open>
  A configuration, a peer descriptor with the flags 0x0409, and blocks that are a hash
  and whether they pass the sanity check; a dispatcher connected to that peer, and the
  same after a caller has queried the hashes 1 and 2.
\<close>

definition example_cfg :: PrunedBlockDispatcherConfig where
  "example_cfg = \<lparr>NumTargetPeers = 1, MaxRequestInvs = 2\<rparr>"

definition example_externals :: "(hash \<times> bool) externals" where
  "example_externals =
     \<lparr>BlockHash = fst, CheckBlockSanity = (\<lambda>b. if snd b then None else Some InvalidBlock)\<rparr>"

definition example_peer :: GetPeerInfoResult where
  "example_peer = \<lparr>Addr = ''10.0.0.1:8333'', Services = ''0000000000000409''\<rparr>"

definition example_connected :: "(hash \<times> bool) PrunedBlockDispatcher" where
  "example_connected =
     \<lparr>cfg = example_cfg, blocksQueried = Map.empty,
      currentPeers = [''10.0.0.1:8333'' \<mapsto> \<lparr>addr = ''10.0.0.1:8333'', disconnect = False\<rparr>],
      bannedPeers = {}, quit = False, chans = [], fanouts = [], poll = Idle,
      io = [CallGetPeers, CallDial ''10.0.0.1:8333'']\<rparr>"

definition example_querying :: "(hash \<times> bool) PrunedBlockDispatcher" where
  "example_querying =
     \<lparr>cfg = example_cfg, blocksQueried = [1 \<mapsto> [0], 2 \<mapsto> [0]],
      currentPeers = [''10.0.0.1:8333'' \<mapsto> \<lparr>addr = ''10.0.0.1:8333'', disconnect = False\<rparr>],
      bannedPeers = {}, quit = False, chans = [make_chan 2], fanouts = [], poll = Idle,
      io = [CallGetPeers, CallDial ''10.0.0.1:8333'']\<rparr>"

text \<open>A dispatcher as the constructor returns it for \<open>MaxRequestInvs = 0\<close>.\<close>

definition example_zero_invs :: "(hash \<times> bool) PrunedBlockDispatcher" where
  "example_zero_invs =
     \<lparr>cfg = \<lparr>NumTargetPeers = 1, MaxRequestInvs = 0\<rparr>, blocksQueried = Map.empty,
      currentPeers = Map.empty, bannedPeers = {}, quit = False, chans = [], fanouts = [],
      poll = NotStarted, io = []\<rparr>"

text \<open>
  The dispatcher connected to the peer, after a caller has queried the hash 1 alone and
  the block for it has been handled, and the same after the fan-out has sent the block.
\<close>

definition example_delivering :: "(hash \<times> bool) PrunedBlockDispatcher" where
  "example_delivering =
     \<lparr>cfg = example_cfg, blocksQueried = Map.empty,
      currentPeers = [''10.0.0.1:8333'' \<mapsto> \<lparr>addr = ''10.0.0.1:8333'', disconnect = False\<rparr>],
      bannedPeers = {}, quit = False, chans = [make_chan 1], fanouts = [((1, True), [0])],
      poll = Idle, io = [CallGetPeers, CallDial ''10.0.0.1:8333'']\<rparr>"

definition example_delivered :: "(hash \<times> bool) PrunedBlockDispatcher" where
  "example_delivered =
     example_delivering
       \<lparr>chans := [\<lparr>ch_cap = 1, ch_buf = [(1, True)], ch_closed = False\<rparr>],
        fanouts := [((1, True), [])]\<rparr>"




lemma example_filter: "filterPeers [example_peer] = Inr [example_peer]"
  by (simp add: filterPeers_def example_peer_def peerServices_def Uint64_def fromHexChar_def
      requiredServices_def SFNodeNetwork_def SFNodeWitness_def prunedNodeService_def)

lemma example_connected_reachable: "reachable example_externals example_connected"
proof -
  let ?X = example_externals
  let ?d0 = "\<lparr>cfg = example_cfg, blocksQueried = Map.empty, currentPeers = Map.empty,
      bannedPeers = {}, quit = False, chans = [], fanouts = [], poll = NotStarted,
      io = []\<rparr> :: (hash \<times> bool) PrunedBlockDispatcher"
  have "NewPrunedBlockDispatcher example_cfg = Inr ?d0"
    by (simp add: NewPrunedBlockDispatcher_def example_cfg_def MaxInvPerMsg_def)
  then have r0: "reachable ?X ?d0" by (rule reachable.init)
  have "step ?X (ActStart (Inr [example_peer])) ?d0
          (connectToPeers_begin (Inr [example_peer]) (\<lambda>xs. xs) ?d0)"
    by (rule step.start) simp_all
  with r0 have r1: "reachable ?X (connectToPeers_begin (Inr [example_peer]) (\<lambda>xs. xs) ?d0)"
    by (rule reachable.next_state)
  let ?d1 = "?d0\<lparr>io := [CallGetPeers], poll := Iterating [example_peer]\<rparr>"
  have d1: "connectToPeers_begin (Inr [example_peer]) (\<lambda>xs. xs) ?d0 = ?d1"
    by (simp add: connectToPeers_begin_def example_filter)
  have "step ?X ActIterCheck ?d1 (connect_check example_peer [] ?d1)"
    by (rule step.iter_check) simp
  with r1 have r2: "reachable ?X (connect_check example_peer [] ?d1)"
    unfolding d1 by (rule reachable.next_state)
  let ?d2 = "?d0\<lparr>io := [CallGetPeers], poll := Connecting example_peer []\<rparr>"
  have d2: "connect_check example_peer [] ?d1 = ?d2"
    by (simp add: connect_check_def)
  have "step ?X (ActConnect Connected) ?d2 (connect_attempt Connected example_peer [] ?d2)"
    by (rule step.connect) simp_all
  with r2 have r3: "reachable ?X (connect_attempt Connected example_peer [] ?d2)"
    unfolding d2 by (rule reachable.next_state)
  have "connect_attempt Connected example_peer [] ?d2 = example_connected"
    by (simp add: connect_attempt_def example_connected_def example_cfg_def example_peer_def)
  with r3 show ?thesis by simp
qed

lemma example_querying_eq: "fst (Query [1, 2] example_connected) = example_querying"
  by (simp add: Query_def newRequest_def example_connected_def example_querying_def
      example_cfg_def AddInvVect_def MaxInvPerMsg_def Let_def NewInvVect_def make_chan_def
      numeral_2_eq_2)

lemma example_querying_reachable: "reachable example_externals example_querying"
  using reachable.next_state [OF example_connected_reachable
      step.query [of example_externals "[1, 2]"]]
  by (simp add: example_querying_eq)

section \<open>The peer filter\<close>

lemma and_push_bit_1:
  "n < LENGTH('a) \<Longrightarrow> (s AND push_bit n 1 = push_bit n 1) = bit s n" for s :: "'a::len word"
proof
  assume n: "n < LENGTH('a)" and "s AND push_bit n 1 = push_bit n 1"
  then have "bit (s AND push_bit n 1) n = bit (push_bit n 1 :: 'a word) n" by simp
  then show "bit s n" using n by (simp add: bit_and_iff bit_exp_iff)
next
  assume "bit s n"
  then show "s AND push_bit n 1 = push_bit n 1"
    by (intro bit_eqI) (auto simp: bit_and_iff bit_exp_iff)
qed

lemma pruned_bit: "(s AND prunedNodeService = prunedNodeService) = bit s 11"
  for s :: ServiceFlag
  unfolding prunedNodeService_def by (rule and_push_bit_1) simp

lemma required_bits: "(s AND requiredServices = requiredServices) = (bit s 0 \<and> bit s 3)"
  for s :: ServiceFlag
proof -
  have "(s AND (push_bit 0 1 OR push_bit 3 1) = push_bit 0 1 OR push_bit 3 1)
      = (s AND push_bit 0 1 = push_bit 0 1 \<and> s AND push_bit 3 1 = push_bit 3 1)"
    unfolding bit_eq_iff [where ?'a = "64 word"]
    by (simp only: bit_and_iff bit_or_iff) blast
  also have "\<dots> = (bit s 0 \<and> bit s 3)"
  proof -
    have a: "(s AND push_bit 0 1 = push_bit 0 1) = bit s 0" by (rule and_push_bit_1) simp
    have b: "(s AND push_bit 3 1 = push_bit 3 1) = bit s 3" by (rule and_push_bit_1) simp
    show ?thesis by (simp only: a b)
  qed
  finally show ?thesis
    unfolding requiredServices_def SFNodeNetwork_def SFNodeWitness_def .
qed

lemma filterPeers_loop_ok:
  "\<forall>p\<in>set peers. \<exists>s. peerServices p = Inr s \<Longrightarrow>
   filterPeers_loop acc peers =
     Inr (acc @ filter (\<lambda>p. case peerServices p of
                              Inr s \<Rightarrow> bit s 0 \<and> bit s 3 \<and> \<not> bit s 11
                            | Inl f \<Rightarrow> False) peers)"
proof (induction peers arbitrary: acc)
  case Nil
  then show ?case by simp
next
  case (Cons p ps)
  then obtain s where s: "peerServices p = Inr s" by auto
  from Cons have IH: "\<And>acc. filterPeers_loop acc ps =
     Inr (acc @ filter (\<lambda>p. case peerServices p of
                              Inr s \<Rightarrow> bit s 0 \<and> bit s 3 \<and> \<not> bit s 11
                            | Inl f \<Rightarrow> False) ps)"
    by simp
  show ?case
    by (simp add: s IH required_bits pruned_bit)
qed

lemma filterPeers_loop_fail:
  "\<forall>p\<in>set pre. \<exists>s. peerServices p = Inr s \<Longrightarrow> peerServices p = Inl f \<Longrightarrow>
   filterPeers_loop acc (pre @ p # post) = Inl f"
  by (induction pre arbitrary: acc) auto

lemma peerServices_Inr_iff:
  "(\<exists>s. peerServices p = Inr s) = (\<exists>bs. DecodeString (Services p) = Inr bs \<and> 8 \<le> length bs)"
  by (auto simp: peerServices_def Uint64_def split: sum.splits)

text \<open>
  Claim C4. When the service flags of every descriptor are well-formed (the hex string
  decodes to eight bytes), \<open>filterPeers\<close> returns, in the order of its input, exactly
  the descriptors whose flags have the NODE_NETWORK bit (0) and the NODE_WITNESS bit (3)
  set and bit 11, the pruned-node bit, clear.
\<close>

theorem filterPeers_eligibility:
  assumes "\<forall>p\<in>set peers. \<exists>bs. DecodeString (Services p) = Inr bs \<and> length bs = 8"
  shows "filterPeers peers =
     Inr (filter (\<lambda>p. case peerServices p of
                        Inr s \<Rightarrow> bit s 0 \<and> bit s 3 \<and> \<not> bit s 11
                      | Inl f \<Rightarrow> False) peers)"
proof -
  from assms have "\<forall>p\<in>set peers. \<exists>s. peerServices p = Inr s"
    unfolding peerServices_Inr_iff by fastforce
  then show ?thesis
    unfolding filterPeers_def by (simp add: filterPeers_loop_ok)
qed

text \<open>
  Scenario S1 of the specification: of the flags 0x0409, 0x0001, 0x0801 and 0x0c09 only
  the first passes.
\<close>

theorem filterPeers_eligibility_witness:
  "filterPeers
     [\<lparr>Addr = ''a'', Services = ''0000000000000409''\<rparr>,
      \<lparr>Addr = ''b'', Services = ''0000000000000001''\<rparr>,
      \<lparr>Addr = ''c'', Services = ''0000000000000801''\<rparr>,
      \<lparr>Addr = ''d'', Services = ''0000000000000c09''\<rparr>]
   = Inr [\<lparr>Addr = ''a'', Services = ''0000000000000409''\<rparr>]"
  using filterPeers_eligibility
    [of "[\<lparr>Addr = ''a'', Services = ''0000000000000409''\<rparr>,
          \<lparr>Addr = ''b'', Services = ''0000000000000001''\<rparr>,
          \<lparr>Addr = ''c'', Services = ''0000000000000801''\<rparr>,
          \<lparr>Addr = ''d'', Services = ''0000000000000c09''\<rparr>]"]
  by (simp add: peerServices_def Uint64_def fromHexChar_def)

section \<open>The constructor\<close>

text \<open>
  Claim C8. \<open>NewPrunedBlockDispatcher\<close> returns an error exactly when \<open>NumTargetPeers\<close>
  is below 1 or \<open>MaxRequestInvs\<close> is above \<open>MaxInvPerMsg\<close>. Otherwise it returns the
  dispatcher with the given configuration, empty maps and ban set, an open quit
  channel, no polling goroutine started and no call made to \<open>GetPeers\<close> or \<open>Dial\<close>.
\<close>

theorem NewPrunedBlockDispatcher_validates:
  "((\<exists>e. (NewPrunedBlockDispatcher c :: error + 'blk PrunedBlockDispatcher) = Inl e)
      \<longleftrightarrow> (NumTargetPeers c < 1 \<or> MaxRequestInvs c > MaxInvPerMsg))
   \<and> (\<not> (NumTargetPeers c < 1 \<or> MaxRequestInvs c > MaxInvPerMsg) \<longrightarrow>
        (NewPrunedBlockDispatcher c :: error + 'blk PrunedBlockDispatcher) =
          Inr \<lparr>cfg = c, blocksQueried = Map.empty, currentPeers = Map.empty,
               bannedPeers = {}, quit = False, chans = [], fanouts = [],
               poll = NotStarted, io = []\<rparr>)"
  by (simp add: NewPrunedBlockDispatcher_def)

theorem NewPrunedBlockDispatcher_validates_witness:
  "(NewPrunedBlockDispatcher \<lparr>NumTargetPeers = 3, MaxRequestInvs = 50000\<rparr>
      :: error + unit PrunedBlockDispatcher) =
     Inr \<lparr>cfg = \<lparr>NumTargetPeers = 3, MaxRequestInvs = 50000\<rparr>, blocksQueried = Map.empty,
          currentPeers = Map.empty, bannedPeers = {}, quit = False, chans = [], fanouts = [],
          poll = NotStarted, io = []\<rparr>
   \<and> (\<exists>e. (NewPrunedBlockDispatcher \<lparr>NumTargetPeers = 0, MaxRequestInvs = 2\<rparr>
      :: error + unit PrunedBlockDispatcher) = Inl e)
   \<and> (\<exists>e. (NewPrunedBlockDispatcher \<lparr>NumTargetPeers = 1, MaxRequestInvs = 50001\<rparr>
      :: error + unit PrunedBlockDispatcher) = Inl e)"
  using NewPrunedBlockDispatcher_validates
      [where ?'blk = unit, of "\<lparr>NumTargetPeers = 3, MaxRequestInvs = 50000\<rparr>"]
    NewPrunedBlockDispatcher_validates
      [where ?'blk = unit, of "\<lparr>NumTargetPeers = 0, MaxRequestInvs = 2\<rparr>"]
    NewPrunedBlockDispatcher_validates
      [where ?'blk = unit, of "\<lparr>NumTargetPeers = 1, MaxRequestInvs = 50001\<rparr>"]
  by (simp add: MaxInvPerMsg_def)

section \<open>The response validator\<close>

lemma finished_loop_iff:
  "finished_loop queried invs = (\<forall>iv\<in>set invs. queried (Hash iv) = None)"
  by (induction invs) (auto split: option.splits)

text \<open>
  Claim C6. When the response is not a block message, or the request is not a getdata
  message, or the hash of the response block is not queried, \<open>handleResp\<close> reports no
  progress and leaves the dispatcher as it was: the queried blocks, the connected
  peers and the banned peers with it.
\<close>

theorem handleResp_ignores:
  assumes "\<not> is_MsgBlock resp \<or> \<not> is_MsgGetData req
           \<or> (\<exists>b. resp = MsgBlock b \<and> blocksQueried d (BlockHash X b) = None)"
  shows "handleResp X req resp peer d = (\<lparr>Progressed = False, Finished = False\<rparr>, d)"
  using assms by (auto simp: handleResp_def split: Message.splits)

theorem handleResp_ignores_witness:
  "handleResp example_externals (MsgGetData [NewInvVect InvTypeBlock 1]) MsgVerAck
     ''10.0.0.1:8333'' example_querying
     = (\<lparr>Progressed = False, Finished = False\<rparr>, example_querying)
   \<and> handleResp example_externals MsgOther (MsgBlock (1, True))
     ''10.0.0.1:8333'' example_querying
     = (\<lparr>Progressed = False, Finished = False\<rparr>, example_querying)
   \<and> handleResp example_externals (MsgGetData [NewInvVect InvTypeBlock 1]) (MsgBlock (7, True))
     ''10.0.0.1:8333'' example_querying
     = (\<lparr>Progressed = False, Finished = False\<rparr>, example_querying)"
  using handleResp_ignores [of MsgVerAck "MsgGetData [NewInvVect InvTypeBlock 1]"
      example_querying example_externals "''10.0.0.1:8333''"]
    handleResp_ignores [of "MsgBlock (1, True)" MsgOther
      example_querying example_externals "''10.0.0.1:8333''"]
    handleResp_ignores [of "MsgBlock (7, True)" "MsgGetData [NewInvVect InvTypeBlock 1]"
      example_querying example_externals "''10.0.0.1:8333''"]
  by (simp add: example_externals_def example_querying_def)

text \<open>
  Claim C5. For a response block whose hash is queried and which passes the sanity
  check, \<open>handleResp\<close> deletes the hash from the queried blocks and returns
  \<open>Progressed\<close> true and \<open>Finished\<close> true exactly when no other hash of the request's
  inventory list is still queried; the connected and the banned peers stay as they
  were.
\<close>

theorem handleResp_progress:
  assumes "blocksQueried d (BlockHash X b) = Some blockChans"
    and "CheckBlockSanity X b = None"
  shows "\<exists>d'. handleResp X (MsgGetData invList) (MsgBlock b) peer d =
           (\<lparr>Progressed = True,
             Finished = (\<forall>iv\<in>set invList.
                           Hash iv \<noteq> BlockHash X b \<longrightarrow> blocksQueried d (Hash iv) = None)\<rparr>, d')
         \<and> blocksQueried d' = (blocksQueried d)(BlockHash X b := None)
         \<and> currentPeers d' = currentPeers d \<and> bannedPeers d' = bannedPeers d"
  using assms by (auto simp: handleResp_def Let_def finished_loop_iff)

theorem handleResp_progress_witness:
  "\<exists>d'. handleResp example_externals
            (MsgGetData [NewInvVect InvTypeBlock 1, NewInvVect InvTypeBlock 2])
            (MsgBlock (1, True)) ''10.0.0.1:8333'' example_querying =
           (\<lparr>Progressed = True, Finished = False\<rparr>, d')
         \<and> blocksQueried d' = [2 \<mapsto> [0]]"
  using handleResp_progress [of example_querying example_externals "(1, True)" "[0]"
      "[NewInvVect InvTypeBlock 1, NewInvVect InvTypeBlock 2]" "''10.0.0.1:8333''"]
  by (auto simp: example_externals_def example_querying_def NewInvVect_def)

text \<open>
  Claim C2, as amended. For a response block whose hash is queried and which fails the
  sanity check, \<open>handleResp\<close> reports no progress; when it returns, the peer's address
  is banned and \<open>Disconnect\<close> has been called on its handle if it was connected. The
  connected peers have the same addresses as before: the peer leaves them when its
  disconnect closure runs.
\<close>

theorem handleResp_bans_invalid:
  assumes "blocksQueried d (BlockHash X b) = Some blockChans"
    and "CheckBlockSanity X b = Some err"
  shows "\<exists>d'. handleResp X (MsgGetData invList) (MsgBlock b) peer d =
           (\<lparr>Progressed = False, Finished = False\<rparr>, d')
         \<and> peer \<in> bannedPeers d'
         \<and> dom (currentPeers d') = dom (currentPeers d)
         \<and> (\<forall>p. currentPeers d peer = Some p \<longrightarrow> currentPeers d' peer = Some (Disconnect p))
         \<and> peer \<notin> dom (currentPeers (onDisconnect peer d'))
         \<and> blocksQueried d' = blocksQueried d"
  using assms
  by (auto simp: handleResp_def Let_def banPeer_def onDisconnect_def split: option.splits)

theorem handleResp_bans_invalid_witness:
  "\<exists>d'. handleResp example_externals
            (MsgGetData [NewInvVect InvTypeBlock 1, NewInvVect InvTypeBlock 2])
            (MsgBlock (1, False)) ''10.0.0.1:8333'' example_querying =
           (\<lparr>Progressed = False, Finished = False\<rparr>, d')
         \<and> ''10.0.0.1:8333'' \<in> bannedPeers d'
         \<and> currentPeers d' ''10.0.0.1:8333'' = Some \<lparr>addr = ''10.0.0.1:8333'', disconnect = True\<rparr>
         \<and> ''10.0.0.1:8333'' \<notin> dom (currentPeers (onDisconnect ''10.0.0.1:8333'' d'))"
  using handleResp_bans_invalid [of example_querying example_externals "(1, False)" "[0]"
      InvalidBlock "[NewInvVect InvTypeBlock 1, NewInvVect InvTypeBlock 2]" "''10.0.0.1:8333''"]
  by (auto simp: example_externals_def example_querying_def Disconnect_def)

text \<open>
  Claim C2 as stated fails: in a reachable dispatcher with the peer connected and the
  hash 1 queried, the peer answers with a block for 1 that fails the sanity check;
  when \<open>handleResp\<close> has returned, the peer is banned and still among the connected
  peers.
\<close>

theorem handleResp_banned_still_connected:
  "reachable example_externals example_querying
   \<and> blocksQueried example_querying (BlockHash example_externals (1, False)) = Some [0]
   \<and> CheckBlockSanity example_externals (1, False) = Some InvalidBlock
   \<and> fst (handleResp example_externals
        (MsgGetData [NewInvVect InvTypeBlock 1, NewInvVect InvTypeBlock 2])
        (MsgBlock (1, False)) ''10.0.0.1:8333'' example_querying)
       = \<lparr>Progressed = False, Finished = False\<rparr>
   \<and> ''10.0.0.1:8333'' \<in> bannedPeers (snd (handleResp example_externals
        (MsgGetData [NewInvVect InvTypeBlock 1, NewInvVect InvTypeBlock 2])
        (MsgBlock (1, False)) ''10.0.0.1:8333'' example_querying))
   \<and> ''10.0.0.1:8333'' \<in> dom (currentPeers (snd (handleResp example_externals
        (MsgGetData [NewInvVect InvTypeBlock 1, NewInvVect InvTypeBlock 2])
        (MsgBlock (1, False)) ''10.0.0.1:8333'' example_querying)))"
  using example_querying_reachable
  by (simp add: handleResp_def example_externals_def example_querying_def banPeer_def
      Disconnect_def)

section \<open>The request registry\<close>

lemma div_batches_full: "1 \<le> M \<Longrightarrow> (M + a + M - 1) div M = 1 + (a + M - 1) div M" for M :: int
proof -
  assume "1 \<le> M"
  then have nz: "M \<noteq> 0" by simp
  have "(M + a + M - 1) div M = ((a + M - 1) + M) div M" by (simp add: algebra_simps)
  also have "\<dots> = (a + M - 1) div M + 1" using nz by (rule div_add_self2)
  finally show ?thesis by simp
qed

lemma div_batches_one: "1 \<le> c \<Longrightarrow> c \<le> M \<Longrightarrow> (c + M - 1) div M = 1" for M :: int
proof -
  assume c: "1 \<le> c" "c \<le> M"
  then have nz: "M \<noteq> 0" by simp
  have "(c + M - 1) div M = ((c - 1) + M) div M" by (simp add: algebra_simps)
  also have "\<dots> = (c - 1) div M + 1" using nz by (rule div_add_self2)
  also have "(c - 1) div M = 0" using c by (simp add: div_pos_pos_trivial)
  finally show ?thesis by simp
qed

lemma div_batches_none: "1 \<le> M \<Longrightarrow> (M - 1) div M = 0" for M :: int
  by (simp add: div_pos_pos_trivial)

lemma newRequest_loop_fresh:
  assumes "queried b = None" "int (length cur) < M" "M \<le> MaxInvPerMsg"
    "(gd = None \<and> cur = []) \<or> gd = Some cur"
  shows "newRequest_loop M ch n i (b # rest) queried reqs gd =
     (if int i = int n - 1 \<or> int (length cur) + 1 = M
      then newRequest_loop M ch n (i + 1) rest (queried(b \<mapsto> [ch]))
             (reqs @ [\<lparr>Req = MsgGetData (cur @ [NewInvVect InvTypeBlock b])\<rparr>]) None
      else newRequest_loop M ch n (i + 1) rest (queried(b \<mapsto> [ch]))
             reqs (Some (cur @ [NewInvVect InvTypeBlock b])))"
  using assms by (auto simp: AddInvVect_def Let_def)

lemma newRequest_loop_queried:
  assumes "queried b = Some cs" "int (length cur) < M"
    "(gd = None \<and> cur = []) \<or> gd = Some cur"
  shows "newRequest_loop M ch n i (b # rest) queried reqs gd =
     (if cur \<noteq> [] \<and> int i = int n - 1
      then newRequest_loop M ch n (i + 1) rest (queried(b \<mapsto> cs @ [ch]))
             (reqs @ [\<lparr>Req = MsgGetData cur\<rparr>]) None
      else newRequest_loop M ch n (i + 1) rest (queried(b \<mapsto> cs @ [ch]))
             reqs (Some cur))"
  using assms by (auto simp: Let_def)

lemma batched_Nil: "1 \<le> M \<Longrightarrow> batched M [] []"
  by (simp add: batched_def div_batches_none)

lemma batched_last:
  "c \<noteq> [] \<Longrightarrow> int (length c) \<le> M \<Longrightarrow> batched M c [\<lparr>Req = MsgGetData c\<rparr>]"
proof -
  assume c: "c \<noteq> []" "int (length c) \<le> M"
  then have "1 \<le> int (length c)" by (cases c) auto
  then have "(int (length c) + M - 1) div M = 1" using c(2) by (rule div_batches_one)
  then show ?thesis using c by (simp add: batched_def invs_of_def)
qed

lemma batched_full:
  assumes "batched M invs new" "1 \<le> M" "int (length c) = M"
  shows "batched M (c @ invs) (\<lparr>Req = MsgGetData c\<rparr> # new)"
proof -
  have "(int (length c) + int (length invs) + M - 1) div M = 1 + (int (length invs) + M - 1) div M"
    using div_batches_full [OF assms(2), of "int (length invs)"] assms(3) by simp
  moreover have "c \<noteq> []" using assms(2,3) by auto
  ultimately show ?thesis using assms by (simp add: batched_def invs_of_def)
qed

lemma newRequest_loop_batches:
  fixes M :: int
  assumes M: "1 \<le> M" "M \<le> MaxInvPerMsg"
  shows "int (length cur) < M \<Longrightarrow> i + length blocks = n \<Longrightarrow>
    (gd = None \<and> cur = []) \<or> gd = Some cur \<Longrightarrow> blocks \<noteq> [] \<or> cur = [] \<Longrightarrow>
    \<exists>new q'. newRequest_loop M ch n i blocks q reqs gd = (q', Inr (reqs @ new))
      \<and> batched M (cur @ map (NewInvVect InvTypeBlock) (not_yet_queried (dom q) blocks)) new"
proof (induction blocks arbitrary: i q reqs gd cur)
  case Nil
  then show ?case using M by (simp add: batched_Nil)
next
  case (Cons b rest)
  have last_iff: "(int i = int n - 1) = (rest = [])"
    using Cons.prems(2) by auto
  have idx: "(i + 1) + length rest = n"
    using Cons.prems(2) by simp
  let ?iv = "NewInvVect InvTypeBlock b"
  show ?case
  proof (cases "q b")
    case None
    let ?q = "q(b \<mapsto> [ch])"
    let ?rest = "map (NewInvVect InvTypeBlock) (not_yet_queried (dom ?q) rest)"
    from None have fresh: "map (NewInvVect InvTypeBlock) (not_yet_queried (dom q) (b # rest)) = ?iv # ?rest"
      by (auto simp: domIff)
    note step = newRequest_loop_fresh [where queried = q and b = b and cur = cur and M = M and gd = gd,
        OF None Cons.prems(1) M(2) Cons.prems(3)]
    show ?thesis
    proof (cases "rest = [] \<or> int (length cur) + 1 = M")
      case True
      let ?r = "\<lparr>Req = MsgGetData (cur @ [?iv])\<rparr> :: 'a Request"
      have "\<exists>new q'. newRequest_loop M ch n (i + 1) rest ?q (reqs @ [?r]) None = (q', Inr ((reqs @ [?r]) @ new))
          \<and> batched M ([] @ ?rest) new"
        by (rule Cons.IH) (use M idx in simp_all)
      then obtain new q' where
        run: "newRequest_loop M ch n (i + 1) rest ?q (reqs @ [?r]) None = (q', Inr ((reqs @ [?r]) @ new))"
        and bat: "batched M ([] @ ?rest) new"
        by blast
      have "batched M ((cur @ [?iv]) @ ?rest) (?r # new)"
      proof (cases "int (length cur) + 1 = M")
        case True
        then have "int (length (cur @ [?iv])) = M" by simp
        with bat M(1) show ?thesis by (intro batched_full) simp_all
      next
        case False
        with True have "rest = []" by simp
        then have "?rest = []" and "new = []" using run by simp_all
        moreover have "batched M (cur @ [?iv]) [?r]"
          using Cons.prems(1) by (intro batched_last) simp_all
        ultimately show ?thesis by simp
      qed
      moreover have "newRequest_loop M ch n i (b # rest) q reqs gd = (q', Inr (reqs @ (?r # new)))"
        unfolding step using True run by (simp add: last_iff)
      ultimately show ?thesis unfolding fresh by (intro exI [of _ "?r # new"] exI [of _ q']) simp
    next
      case False
      then have small: "int (length (cur @ [?iv])) < M" and more: "rest \<noteq> []"
        using Cons.prems(1) by auto
      have "\<exists>new q'. newRequest_loop M ch n (i + 1) rest ?q reqs (Some (cur @ [?iv])) = (q', Inr (reqs @ new))
          \<and> batched M ((cur @ [?iv]) @ ?rest) new"
        by (rule Cons.IH) (use small idx more in simp_all)
      then obtain new q' where
        run: "newRequest_loop M ch n (i + 1) rest ?q reqs (Some (cur @ [?iv])) = (q', Inr (reqs @ new))"
        and bat: "batched M ((cur @ [?iv]) @ ?rest) new"
        by blast
      have "newRequest_loop M ch n i (b # rest) q reqs gd = (q', Inr (reqs @ new))"
        unfolding step using False run by (simp add: last_iff)
      then show ?thesis using bat unfolding fresh by (intro exI [of _ new] exI [of _ q']) simp
    qed
  next
    case (Some cs)
    let ?q = "q(b \<mapsto> cs @ [ch])"
    from Some have dom_eq: "dom ?q = dom q"
      by (auto simp: domIff)
    from Some have fresh: "not_yet_queried (dom q) (b # rest) = not_yet_queried (dom ?q) rest"
      unfolding dom_eq by (auto simp: domIff)
    let ?rest = "map (NewInvVect InvTypeBlock) (not_yet_queried (dom ?q) rest)"
    note step = newRequest_loop_queried [where queried = q and b = b and cur = cur and M = M and gd = gd,
        OF Some Cons.prems(1) Cons.prems(3)]
    show ?thesis
    proof (cases "cur \<noteq> [] \<and> rest = []")
      case True
      let ?r = "\<lparr>Req = MsgGetData cur\<rparr> :: 'a Request"
      have "newRequest_loop M ch n i (b # rest) q reqs gd = (?q, Inr (reqs @ [?r]))"
        unfolding step using True by (simp add: last_iff)
      moreover have "batched M (cur @ ?rest) [?r]"
        using True Cons.prems(1) batched_last [of cur M] by simp
      ultimately show ?thesis unfolding fresh by blast
    next
      case False
      then have pre: "rest \<noteq> [] \<or> cur = []" by auto
      have "\<exists>new q'. newRequest_loop M ch n (i + 1) rest ?q reqs (Some cur) = (q', Inr (reqs @ new))
          \<and> batched M (cur @ ?rest) new"
        by (rule Cons.IH) (use Cons.prems(1) idx pre in simp_all)
      then obtain new q' where
        run: "newRequest_loop M ch n (i + 1) rest ?q reqs (Some cur) = (q', Inr (reqs @ new))"
        and bat: "batched M (cur @ ?rest) new"
        by blast
      have "newRequest_loop M ch n i (b # rest) q reqs gd = (q', Inr (reqs @ new))"
        unfolding step using False run by (auto simp: last_iff)
      then show ?thesis using bat unfolding fresh by (intro exI [of _ new] exI [of _ q']) simp
    qed
  qed
qed

lemma neg_div_ceil: "1 \<le> M \<Longrightarrow> - ((- a) div M) = (a + M - 1) div M" for M :: int
proof -
  assume M: "1 \<le> M"
  define q where "q = (a + M - 1) div M"
  define r where "r = (a + M - 1) mod M"
  have r: "0 \<le> r" "r < M" using M by (simp_all add: r_def)
  have "a + M - 1 = M * q + r" by (simp add: q_def r_def)
  then have "- a = M * (- q) + (M - 1 - r)" by (simp add: algebra_simps)
  moreover have "0 \<le> M - 1 - r" "M - 1 - r < M" using r by simp_all
  ultimately have "(- a) div M = - q" by (rule int_div_pos_eq)
  then show ?thesis by (simp add: q_def)
qed

lemma ceiling_div_batches:
  "1 \<le> M \<Longrightarrow> \<lceil>real L / real_of_int M\<rceil> = (int L + M - 1) div M"
proof -
  assume M: "1 \<le> M"
  have "\<lceil>real L / real_of_int M\<rceil> = \<lceil>real_of_int (int L) / real_of_int M\<rceil>" by simp
  also have "\<dots> = - ((- int L) div M)" by (rule ceiling_divide_eq_div)
  also have "\<dots> = (int L + M - 1) div M" using M by (rule neg_div_ceil)
  finally show ?thesis .
qed

text \<open>
  Claim C3, as amended. In a dispatcher whose \<open>MaxRequestInvs\<close> is at least 1 and at most
  \<open>MaxInvPerMsg\<close>, \<open>newRequest\<close> succeeds on every list of hashes; the number of requests
  it emits is the ceiling of \<open>L' / MaxRequestInvs\<close>, where \<open>L'\<close> counts the hashes that
  were not queried when their turn came; no request has more than \<open>MaxRequestInvs\<close>
  inventory entries; and the entries of the requests, read in order, are those hashes
  in the order of the input.
\<close>

theorem newRequest_batches:
  assumes "1 \<le> MaxRequestInvs (cfg d)" and "MaxRequestInvs (cfg d) \<le> MaxInvPerMsg"
  shows "\<exists>d' reqs blockChan. newRequest blocks d = (d', Inr (reqs, blockChan))
     \<and> int (length reqs) =
         \<lceil>real (length (not_yet_queried (dom (blocksQueried d)) blocks))
            / real_of_int (MaxRequestInvs (cfg d))\<rceil>
     \<and> (\<forall>r\<in>set reqs. int (length (invs_of r)) \<le> MaxRequestInvs (cfg d))
     \<and> concat (map invs_of reqs) =
         map (NewInvVect InvTypeBlock) (not_yet_queried (dom (blocksQueried d)) blocks)"
proof -
  let ?M = "MaxRequestInvs (cfg d)"
  let ?fresh = "map (NewInvVect InvTypeBlock) (not_yet_queried (dom (blocksQueried d)) blocks)"
  have "\<exists>new q'. newRequest_loop ?M (length (chans d)) (length blocks) 0 blocks
            (blocksQueried d) ([] :: 'a Request list) None = (q', Inr ([] @ new))
          \<and> batched ?M ([] @ ?fresh) new"
    using assms by (intro newRequest_loop_batches) simp_all
  then obtain new q' where
    run: "newRequest_loop ?M (length (chans d)) (length blocks) 0 blocks
            (blocksQueried d) ([] :: 'a Request list) None = (q', Inr new)"
    and bat: "batched ?M ?fresh new"
    by auto
  have "newRequest blocks d =
      (d\<lparr>chans := chans d @ [make_chan (length blocks)], blocksQueried := q'\<rparr>,
       Inr (new, length (chans d)))"
    using run by (simp add: newRequest_def Let_def)
  moreover have "int (length new) =
      \<lceil>real (length (not_yet_queried (dom (blocksQueried d)) blocks)) / real_of_int ?M\<rceil>"
    using bat ceiling_div_batches [OF assms(1)] by (simp add: batched_def)
  moreover have "\<forall>r\<in>set new. int (length (invs_of r)) \<le> ?M"
    using bat by (simp add: batched_def)
  moreover have "concat (map invs_of new) = ?fresh"
    using bat by (simp add: batched_def)
  ultimately show ?thesis by blast
qed

text \<open>
  Scenario S2 of the specification: with \<open>MaxRequestInvs = 2\<close>, five hashes that are not
  queried are requested in three batches of 2, 2 and 1 entries, in input order.
\<close>

theorem newRequest_batches_witness:
  "\<exists>d'. newRequest [1, 2, 3, 4, 5] example_connected =
      (d', Inr ([\<lparr>Req = MsgGetData [NewInvVect InvTypeBlock 1, NewInvVect InvTypeBlock 2]\<rparr>,
                 \<lparr>Req = MsgGetData [NewInvVect InvTypeBlock 3, NewInvVect InvTypeBlock 4]\<rparr>,
                 \<lparr>Req = MsgGetData [NewInvVect InvTypeBlock 5]\<rparr>], 0))
    \<and> \<lceil>real (length (not_yet_queried (dom (blocksQueried example_connected)) [1, 2, 3, 4, 5]))
         / real_of_int (MaxRequestInvs (cfg example_connected))\<rceil> = 3"
  using newRequest_batches [of example_connected "[1, 2, 3, 4, 5]"]
  by (simp add: newRequest_def example_connected_def example_cfg_def AddInvVect_def
      MaxInvPerMsg_def Let_def)

text \<open>
  Claim C3 as stated fails: the constructor accepts \<open>MaxRequestInvs = 0\<close>, and the
  dispatcher it returns answers a request for one hash with a batch of one inventory
  entry, which is more than \<open>MaxRequestInvs\<close>.
\<close>

theorem newRequest_batch_over_zero_limit:
  "NewPrunedBlockDispatcher \<lparr>NumTargetPeers = 1, MaxRequestInvs = 0\<rparr> = Inr example_zero_invs
   \<and> snd (newRequest [1] example_zero_invs)
       = Inr ([\<lparr>Req = MsgGetData [NewInvVect InvTypeBlock 1]\<rparr>], 0)
   \<and> \<not> int (length (invs_of (\<lparr>Req = MsgGetData [NewInvVect InvTypeBlock 1]\<rparr>
                               :: (hash \<times> bool) Request)))
         \<le> MaxRequestInvs (cfg example_zero_invs)"
  by (simp add: NewPrunedBlockDispatcher_def example_zero_invs_def newRequest_def
      AddInvVect_def MaxInvPerMsg_def Let_def invs_of_def)







section \<open>The peer filter on malformed descriptors\<close>

lemma filterPeers_loop_Inr:
  "filterPeers_loop acc peers = Inr el \<Longrightarrow> \<forall>p\<in>set peers. \<exists>s. peerServices p = Inr s"
  by (induction peers arbitrary: acc) (auto split: sum.splits if_splits)

lemma peerServices_short:
  "DecodeString (Services p) = Inr bs \<Longrightarrow> length bs < 8 \<Longrightarrow> peerServices p = Inl Panic"
  by (simp add: peerServices_def Uint64_def)

lemma peerServices_invalid:
  "DecodeString (Services p) = Inl e \<Longrightarrow> peerServices p = Inl (Returned e)"
  by (simp add: peerServices_def)

text \<open>
  Claim C10. \<open>filterPeers\<close> returns a list exactly when the service flags of every
  descriptor are valid hex that decodes to at least eight bytes. At the first descriptor
  that is not so: when its flags decode to fewer than eight bytes, the 64-bit read
  panics and so does \<open>filterPeers\<close>; when they are not valid hex, \<open>filterPeers\<close> returns
  the decoder's error, and the connection pass that called it ends there, with no
  candidate left to try.
\<close>

theorem filterPeers_totality:
  "((\<exists>eligible. filterPeers peers = Inr eligible)
      \<longleftrightarrow> (\<forall>p\<in>set peers. \<exists>bs. DecodeString (Services p) = Inr bs \<and> 8 \<le> length bs))
   \<and> (\<forall>pre p post bs.
         peers = pre @ p # post \<and> (\<forall>x\<in>set pre. \<exists>s. peerServices x = Inr s)
         \<and> DecodeString (Services p) = Inr bs \<and> length bs < 8
         \<longrightarrow> Uint64 bs = Inl Panic \<and> filterPeers peers = Inl Panic)
   \<and> (\<forall>pre p post e.
         peers = pre @ p # post \<and> (\<forall>x\<in>set pre. \<exists>s. peerServices x = Inr s)
         \<and> DecodeString (Services p) = Inl e
         \<longrightarrow> filterPeers peers = Inl (Returned e)
             \<and> (\<forall>shuffle (d :: 'blk PrunedBlockDispatcher).
                   connectToPeers_begin (Inr peers) shuffle d
                     = d\<lparr>io := io d @ [CallGetPeers], poll := Idle\<rparr>))"
proof (intro conjI allI impI)
  show "(\<exists>eligible. filterPeers peers = Inr eligible)
      \<longleftrightarrow> (\<forall>p\<in>set peers. \<exists>bs. DecodeString (Services p) = Inr bs \<and> 8 \<le> length bs)"
  proof
    assume "\<exists>eligible. filterPeers peers = Inr eligible"
    then have "\<forall>p\<in>set peers. \<exists>s. peerServices p = Inr s"
      unfolding filterPeers_def by (auto dest: filterPeers_loop_Inr)
    then show "\<forall>p\<in>set peers. \<exists>bs. DecodeString (Services p) = Inr bs \<and> 8 \<le> length bs"
      unfolding peerServices_Inr_iff .
  next
    assume "\<forall>p\<in>set peers. \<exists>bs. DecodeString (Services p) = Inr bs \<and> 8 \<le> length bs"
    then have "\<forall>p\<in>set peers. \<exists>s. peerServices p = Inr s"
      unfolding peerServices_Inr_iff .
    then show "\<exists>eligible. filterPeers peers = Inr eligible"
      unfolding filterPeers_def by (simp add: filterPeers_loop_ok)
  qed
next
  fix pre p post bs
  assume "peers = pre @ p # post \<and> (\<forall>x\<in>set pre. \<exists>s. peerServices x = Inr s)
         \<and> DecodeString (Services p) = Inr bs \<and> length bs < 8"
  then show "Uint64 bs = Inl Panic" by (simp add: Uint64_def)
next
  fix pre p post bs
  assume "peers = pre @ p # post \<and> (\<forall>x\<in>set pre. \<exists>s. peerServices x = Inr s)
         \<and> DecodeString (Services p) = Inr bs \<and> length bs < 8"
  then show "filterPeers peers = Inl Panic"
    unfolding filterPeers_def by (simp add: filterPeers_loop_fail peerServices_short)
next
  fix pre p post e
  assume "peers = pre @ p # post \<and> (\<forall>x\<in>set pre. \<exists>s. peerServices x = Inr s)
         \<and> DecodeString (Services p) = Inl e"
  then show "filterPeers peers = Inl (Returned e)"
    unfolding filterPeers_def by (simp add: filterPeers_loop_fail peerServices_invalid)
next
  fix pre p post e shuffle and d :: "'blk PrunedBlockDispatcher"
  assume "peers = pre @ p # post \<and> (\<forall>x\<in>set pre. \<exists>s. peerServices x = Inr s)
         \<and> DecodeString (Services p) = Inl e"
  then have "filterPeers peers = Inl (Returned e)"
    unfolding filterPeers_def by (simp add: filterPeers_loop_fail peerServices_invalid)
  then show "connectToPeers_begin (Inr peers) shuffle d
                     = d\<lparr>io := io d @ [CallGetPeers], poll := Idle\<rparr>"
    by (simp add: connectToPeers_begin_def)
qed

theorem filterPeers_totality_witness:
  "filterPeers [example_peer, \<lparr>Addr = ''b'', Services = ''0409''\<rparr>] = Inl Panic
   \<and> filterPeers [example_peer, \<lparr>Addr = ''c'', Services = ''000000000000040z''\<rparr>]
       = Inl (Returned (InvalidByteError CHR ''z''))
   \<and> connectToPeers_begin
       (Inr [example_peer, \<lparr>Addr = ''c'', Services = ''000000000000040z''\<rparr>]) (\<lambda>xs. xs)
       (example_connected\<lparr>currentPeers := Map.empty\<rparr>)
       = example_connected\<lparr>currentPeers := Map.empty,
           io := [CallGetPeers, CallDial ''10.0.0.1:8333'', CallGetPeers], poll := Idle\<rparr>"
proof -
  let ?short = "\<lparr>Addr = ''b'', Services = ''0409''\<rparr>"
  let ?bad = "\<lparr>Addr = ''c'', Services = ''000000000000040z''\<rparr>"
  have ok: "\<forall>x\<in>set [example_peer]. \<exists>s. peerServices x = Inr s"
    by (simp add: example_peer_def peerServices_def Uint64_def fromHexChar_def)
  have short: "DecodeString (Services ?short) = Inr [4, 9]"
    by (simp add: fromHexChar_def)
  have bad: "DecodeString (Services ?bad) = Inl (InvalidByteError CHR ''z'')"
    by (simp add: fromHexChar_def)
  note panics = filterPeers_totality [of "[example_peer, ?short]",
      THEN conjunct2, THEN conjunct1, rule_format, of "[example_peer]" ?short "[]" "[4, 9]"]
  note aborts = filterPeers_totality [where ?'blk = "hash \<times> bool", of "[example_peer, ?bad]",
      THEN conjunct2, THEN conjunct2, rule_format,
      of "[example_peer]" ?bad "[]" "InvalidByteError CHR ''z''"]
  have "filterPeers [example_peer, ?short] = Inl Panic"
    using panics ok short by simp
  moreover have "filterPeers [example_peer, ?bad] = Inl (Returned (InvalidByteError CHR ''z''))"
    using aborts ok bad by simp
  moreover have "connectToPeers_begin (Inr [example_peer, ?bad]) (\<lambda>xs. xs)
       (example_connected\<lparr>currentPeers := Map.empty\<rparr>)
       = example_connected\<lparr>currentPeers := Map.empty,
           io := [CallGetPeers, CallDial ''10.0.0.1:8333'', CallGetPeers], poll := Idle\<rparr>"
    using aborts ok bad by (simp add: example_connected_def)
  ultimately show ?thesis by simp
qed

section \<open>The peer pool\<close>

lemma newRequest_frame:
  "cfg (fst (newRequest blocks d)) = cfg d"
  "currentPeers (fst (newRequest blocks d)) = currentPeers d"
  "bannedPeers (fst (newRequest blocks d)) = bannedPeers d"
  "poll (fst (newRequest blocks d)) = poll d"
  "quit (fst (newRequest blocks d)) = quit d"
  "chans (fst (newRequest blocks d)) = chans d @ [make_chan (length blocks)]"
  by (simp_all add: newRequest_def Let_def split: prod.splits sum.splits)

lemma Query_state: "fst (Query blocks d) = fst (newRequest blocks d)"
  by (simp add: Query_def split: prod.splits sum.splits)

lemma banPeer_frame:
  "cfg (banPeer peer d) = cfg d"
  "dom (currentPeers (banPeer peer d)) = dom (currentPeers d)"
  "poll (banPeer peer d) = poll d"
  "chans (banPeer peer d) = chans d"
  "(currentPeers (banPeer peer d) = Map.empty) = (currentPeers d = Map.empty)"
  by (auto simp: banPeer_def Let_def split: option.splits)

lemma handleResp_frame:
  "cfg (snd (handleResp X req resp peer d)) = cfg d"
  "dom (currentPeers (snd (handleResp X req resp peer d))) = dom (currentPeers d)"
  "poll (snd (handleResp X req resp peer d)) = poll d"
  "chans (snd (handleResp X req resp peer d)) = chans d"
  "(currentPeers (snd (handleResp X req resp peer d)) = Map.empty) = (currentPeers d = Map.empty)"
  by (simp_all add: handleResp_def Let_def banPeer_frame split: Message.splits option.splits)

lemma fanout_send_frame:
  assumes "fanout_send k d = Some d'"
  shows "cfg d' = cfg d" "currentPeers d' = currentPeers d" "poll d' = poll d"
  using assms
  by (auto simp: fanout_send_def split: if_splits prod.splits list.splits send_result.splits)

lemma connectToPeers_begin_frame:
  "cfg (connectToPeers_begin gp sh d) = cfg d"
  "currentPeers (connectToPeers_begin gp sh d) = currentPeers d"
  "chans (connectToPeers_begin gp sh d) = chans d"
  "poll (connectToPeers_begin gp sh d) \<noteq> NotStarted"
  by (simp_all add: connectToPeers_begin_def Let_def split: sum.splits failure.splits)

lemma card_dom_upd:
  "finite (dom m) \<Longrightarrow> card (dom (m(a \<mapsto> v))) \<le> card (dom m) + 1"
  by (simp add: card_insert_if)

lemma pool_inv_step:
  assumes "step X a d d'" and "pool_inv d"
  shows "pool_inv d'"
  using assms
proof (cases rule: step.cases)
  case (start shuffle getPeers)
  with assms(2) show ?thesis
    by (auto simp: pool_inv_def connectToPeers_begin_frame)
next
  case (tick shuffle getPeers)
  with assms(2) show ?thesis
    by (auto simp: pool_inv_def pollPeers_tick_def Let_def connectToPeers_begin_frame)
next
  case poll_quit
  with assms(2) show ?thesis by (simp add: pool_inv_def)
next
  case (iter_check peer rest)
  with assms(2) show ?thesis by (simp add: pool_inv_def connect_check_def)
next
  case pass_end
  with assms(2) show ?thesis by (simp add: pool_inv_def)
next
  case (connect peer rest outcome)
  from assms(2) connect(3) have fin: "finite (dom (currentPeers d))"
    and lt: "int (card (dom (currentPeers d))) < NumTargetPeers (cfg d)"
    and one: "1 \<le> NumTargetPeers (cfg d)"
    by (simp_all add: pool_inv_def)
  have "int (card (dom ((currentPeers d)(Addr peer \<mapsto> v)))) \<le> NumTargetPeers (cfg d)" for v
    using card_dom_upd [OF fin, of "Addr peer" v] lt by simp
  with fin lt one connect show ?thesis
    by (cases outcome) (auto simp: pool_inv_def connect_attempt_def Let_def)
next
  case (peer_disconnected a)
  from assms(2) have fin: "finite (dom (currentPeers d))" by (simp add: pool_inv_def)
  have "card (dom (currentPeers d) - {a}) \<le> card (dom (currentPeers d))"
    using fin by (intro card_mono) auto
  with assms(2) peer_disconnected show ?thesis
    by (auto simp: pool_inv_def onDisconnect_def)
next
  case (query blocks)
  with assms(2) show ?thesis by (simp add: pool_inv_def Query_state newRequest_frame)
next
  case (handle_resp req resp peer)
  with assms(2) show ?thesis by (simp add: pool_inv_def handleResp_frame)
next
  case (fanout_send k)
  with assms(2) show ?thesis by (simp add: pool_inv_def fanout_send_frame)
next
  case (fanout_quit k)
  with assms(2) show ?thesis by (simp add: pool_inv_def fanout_quit_def)
next
  case (recv c)
  with assms(2) show ?thesis by (simp add: pool_inv_def chan_recv_def)
next
  case stop
  with assms(2) show ?thesis by (simp add: pool_inv_def Stop_def)
qed

lemma pool_inv_reachable: "reachable X d \<Longrightarrow> pool_inv d"
proof (induction rule: reachable.induct)
  case (init c d)
  then show ?case
    by (auto simp: NewPrunedBlockDispatcher_def pool_inv_def split: if_splits)
next
  case (next_state d a d')
  then show ?case by (auto intro: pool_inv_step)
qed

lemma step_adds_at_most_one:
  assumes "step X a d d'" and "finite (dom (currentPeers d))"
  shows "card (dom (currentPeers d')) \<le> card (dom (currentPeers d)) + 1"
  using assms
proof (cases rule: step.cases)
  case (connect peer rest outcome)
  then show ?thesis
    using card_dom_upd [OF assms(2), of "Addr peer"]
    by (cases outcome) (auto simp: connect_attempt_def Let_def)
next
  case (peer_disconnected a)
  have "card (dom (currentPeers d) - {a}) \<le> card (dom (currentPeers d))"
    using assms(2) by (intro card_mono) auto
  with peer_disconnected show ?thesis by (simp add: onDisconnect_def)
qed (auto simp: connectToPeers_begin_frame pollPeers_tick_def connect_check_def Query_state
      newRequest_frame handleResp_frame fanout_send_frame fanout_quit_def chan_recv_def Stop_def)

text \<open>
  Claim C7. In every state a dispatcher made by the constructor can reach, the
  connected peers are no more than \<open>NumTargetPeers\<close>; while a connection pass runs they
  are fewer than the target; a step adds at most one peer; and after a step that
  brings their number to the target no pass is running.
\<close>

theorem connected_within_target:
  assumes "reachable X d"
  shows "finite (dom (currentPeers d))
     \<and> int (card (dom (currentPeers d))) \<le> NumTargetPeers (cfg d)
     \<and> (in_pass (poll d) \<longrightarrow> int (card (dom (currentPeers d))) < NumTargetPeers (cfg d))
     \<and> (\<forall>a d'. step X a d d' \<longrightarrow>
           card (dom (currentPeers d')) \<le> card (dom (currentPeers d)) + 1
           \<and> (int (card (dom (currentPeers d'))) = NumTargetPeers (cfg d') \<longrightarrow> \<not> in_pass (poll d')))"
proof -
  from assms have inv: "pool_inv d" by (rule pool_inv_reachable)
  have "pool_inv d'" if "step X a d d'" for a d'
    using that inv by (rule pool_inv_step)
  then have "int (card (dom (currentPeers d'))) = NumTargetPeers (cfg d') \<longrightarrow> \<not> in_pass (poll d')"
    if "step X a d d'" for a d'
    using that by (fastforce simp: pool_inv_def)
  moreover have "card (dom (currentPeers d')) \<le> card (dom (currentPeers d)) + 1"
    if "step X a d d'" for a d'
    using that inv by (intro step_adds_at_most_one) (simp_all add: pool_inv_def)
  ultimately show ?thesis using inv by (auto simp: pool_inv_def)
qed

theorem connected_within_target_witness:
  "reachable example_externals example_connected
   \<and> card (dom (currentPeers example_connected)) = 1
   \<and> int (card (dom (currentPeers example_connected))) \<le> NumTargetPeers (cfg example_connected)
   \<and> \<not> in_pass (poll example_connected)"
  using connected_within_target [OF example_connected_reachable] example_connected_reachable
  by (simp add: example_connected_def example_cfg_def)

section \<open>The delivery channels\<close>

lemma chan_send_closed: "chan_send v ch = Sent ch' \<Longrightarrow> ch_closed ch' = ch_closed ch"
  by (auto simp: chan_send_def split: if_splits)

lemma fanout_send_chans:
  assumes "fanout_send k d = Some d'"
  shows "length (chans d') = length (chans d)"
    and "c < length (chans d) \<Longrightarrow> ch_closed (chans d' ! c) = ch_closed (chans d ! c)"
  using assms
  by (auto simp: fanout_send_def nth_list_update dest: chan_send_closed
      split: if_splits prod.splits list.splits send_result.splits)

lemma Stop_keeps_channels: "chans (Stop d) = chans d"
  by (simp add: Stop_def)

lemma example_delivering_eq:
  "handleResp example_externals (MsgGetData [NewInvVect InvTypeBlock 1]) (MsgBlock (1, True))
     ''10.0.0.1:8333'' (fst (Query [1] example_connected))
   = (\<lparr>Progressed = True, Finished = True\<rparr>, example_delivering)"
  by (simp add: Query_def newRequest_def handleResp_def example_connected_def
      example_delivering_def example_externals_def example_cfg_def AddInvVect_def
      MaxInvPerMsg_def Let_def NewInvVect_def)

lemma example_delivered_step:
  "step example_externals (ActFanoutSend 0) example_delivering example_delivered"
  by (rule step.fanout_send)
    (simp add: fanout_send_def chan_send_def example_delivering_def example_delivered_def
      make_chan_def)

text \<open>
  Claim C9. No step of the dispatcher other than \<open>Stop\<close> closes a delivery channel:
  after the step every channel that was there is closed exactly if it was before, and
  a channel the step has made is open. The steps include the handling and the fan-out
  of the last block a caller has asked for.
\<close>

theorem delivery_channel_stays_open:
  assumes "step X a d d'" and "a \<noteq> ActStop"
  shows "length (chans d) \<le> length (chans d')
     \<and> (\<forall>c<length (chans d). ch_closed (chans d' ! c) = ch_closed (chans d ! c))
     \<and> (\<forall>c. length (chans d) \<le> c \<and> c < length (chans d') \<longrightarrow> \<not> ch_closed (chans d' ! c))"
  using assms
proof (cases rule: step.cases)
  case (query blocks)
  then show ?thesis
    by (auto simp: Query_state newRequest_frame nth_append make_chan_def)
next
  case (fanout_send k)
  then show ?thesis using fanout_send_chans [of k d d'] by auto
next
  case (recv c)
  then show ?thesis by (auto simp: chan_recv_def nth_list_update)
next
  case (connect peer rest outcome)
  then show ?thesis by (cases outcome) (auto simp: connect_attempt_def Let_def)
qed (auto simp: connectToPeers_begin_frame pollPeers_tick_def connect_check_def
      handleResp_frame fanout_quit_def onDisconnect_def Let_def)

text \<open>
  A caller has queried one hash; its block is handled, which finishes the request, and
  the fan-out sends it: the channel holds the block and is open.
\<close>

theorem delivery_channel_stays_open_witness:
  "handleResp example_externals (MsgGetData [NewInvVect InvTypeBlock 1]) (MsgBlock (1, True))
     ''10.0.0.1:8333'' (fst (Query [1] example_connected))
     = (\<lparr>Progressed = True, Finished = True\<rparr>, example_delivering)
   \<and> step example_externals (ActFanoutSend 0) example_delivering example_delivered
   \<and> ch_buf (chans example_delivered ! 0) = [(1, True)]
   \<and> \<not> ch_closed (chans example_delivered ! 0)"
proof -
  have "ch_closed (chans example_delivered ! 0) = ch_closed (chans example_delivering ! 0)"
    using delivery_channel_stays_open [OF example_delivered_step]
    by (simp add: example_delivering_def)
  then have "\<not> ch_closed (chans example_delivered ! 0)"
    by (simp add: example_delivering_def make_chan_def)
  moreover have "ch_buf (chans example_delivered ! 0) = [(1, True)]"
    by (simp add: example_delivered_def)
  ultimately show ?thesis
    using example_delivering_eq example_delivered_step by simp
qed

section \<open>Two callers of one hash\<close>

subsection \<open>No send of a fan-out goroutine blocks\<close>


































subsection \<open>A request that fails\<close>











subsection \<open>The two callers\<close>












end
